theory Spec2Isabelle
  imports Complex_Main "HOL-Library.AList" "HOL-Library.Sublist"
begin

section \<open>The time tracker server: data model\<close>

text \<open>
  The server keeps three module-level JavaScript \<^verbatim>\<open>Map\<close>s: \<^verbatim>\<open>timers\<close>,
  \<^verbatim>\<open>sessions\<close> and \<^verbatim>\<open>conversationHistory\<close>. Their values are references to
  mutable objects: \<^verbatim>\<open>timers\<close> and \<^verbatim>\<open>sessions\<close> hold the same timer object, and
  \<^verbatim>\<open>stopTimer\<close> pushes a shallow copy \<^verbatim>\<open>{ ...timer }\<close> onto the history array.
  Objects therefore live in an explicit heap, a list of timer objects in which a
  reference is an index; allocation appends, so the fresh reference is the length of
  the heap. A \<^verbatim>\<open>Map\<close> is an association list in insertion order: \<^verbatim>\<open>set\<close> is
  \<open>AList.update\<close> (an existing key keeps its place, a new key goes last),
  \<^verbatim>\<open>delete\<close> is \<open>AList.delete\<close> and \<^verbatim>\<open>get\<close> is \<open>map_of\<close>.

  Timestamps and durations are JavaScript numbers holding integers (milliseconds of
  \<^verbatim>\<open>Date.now()\<close>); they are modelled as \<open>int\<close>. The clock is not read by the model:
  the value that \<^verbatim>\<open>Date.now()\<close> returns while a handler runs is the parameter
  \<open>now\<close> of that handler (all reads inside one synchronous handler run are taken to
  return the same value). Where the code reads the clock twice in a row, only one of
  the two values ever enters a subtraction: a new timer counts from its
  \<open>last_update\<close>, not from its \<open>start_time\<close>; the \<open>last_update\<close> that a pause stores
  is overwritten by the resume before it is used; and \<open>end_time\<close> is never read. The
  random \<^verbatim>\<open>crypto.randomUUID()\<close> is the parameter \<open>sessionId\<close>.

  Identifiers are strings. The routes that only read (\<^verbatim>\<open>/health\<close>,
  \<^verbatim>\<open>/dashboard\<close>), the formatting of durations and the \<^verbatim>\<open>formatted\<close> part of
  the analytics answer are not modelled.
\<close>

datatype status = Running | Paused | Stopped

record timer =
  admin_id :: string
  conversation_id :: string
  session_id :: string
  start_time :: int
  total_elapsed :: int
  status :: status
  last_update :: int
  final_duration :: "int option"
  end_time :: "int option"

type_synonym ref = nat

record server =
  heap :: "timer list"
  timers :: "(string \<times> ref) list"
  sessions :: "(string \<times> ref) list"
  conversationHistory :: "(string \<times> ref list) list"

definition initial_server :: server where
  "initial_server = \<lparr>heap = [], timers = [], sessions = [], conversationHistory = []\<rparr>"

text \<open>The template literal \<^verbatim>\<open>`${admin_id}_${conversation_id}`\<close>.\<close>

definition timerKey :: "string \<Rightarrow> string \<Rightarrow> string" where
  "timerKey adminId conversationId = adminId @ ''_'' @ conversationId"

definition key_of :: "timer \<Rightarrow> string" where
  "key_of t = timerKey (admin_id t) (conversation_id t)"

text \<open>
  The expression \<^verbatim>\<open>timer.total_elapsed + (timer.status === 'running' ? Date.now() -
  timer.last_update : 0)\<close> of the canvas and the dashboard.
\<close>

definition currentElapsed :: "timer \<Rightarrow> int \<Rightarrow> int" where
  "currentElapsed t now =
     total_elapsed t + (if status t = Running then now - last_update t else 0)"

section \<open>Starting a timer: the initialize logic\<close>

text \<open>
  Lines 120 to 144 of the server: look the key up, create a running timer when there
  is none, resume it when it is paused, and otherwise leave it alone.
\<close>

definition start :: "string \<Rightarrow> string \<Rightarrow> string \<Rightarrow> int \<Rightarrow> server \<Rightarrow> server" where
  "start adminId conversationId sessionId now s =
     (case map_of (timers s) (timerKey adminId conversationId) of
        None \<Rightarrow>
          s\<lparr>heap := heap s @
                 [\<lparr>admin_id = adminId, conversation_id = conversationId,
                   session_id = sessionId, start_time = now, total_elapsed = 0,
                   status = Running, last_update = now,
                   final_duration = None, end_time = None\<rparr>],
            timers := AList.update (timerKey adminId conversationId) (length (heap s)) (timers s),
            sessions := AList.update sessionId (length (heap s)) (sessions s)\<rparr>
      | Some r \<Rightarrow>
          if status (heap s ! r) = Paused
          then s\<lparr>heap := (heap s)[r := (heap s ! r)\<lparr>status := Running, last_update := now\<rparr>]\<rparr>
          else s)"

text \<open>
  The request body of the initialize logic: \<^verbatim>\<open>context\<close> may be missing, and so may
  its \<^verbatim>\<open>location\<close>, its \<^verbatim>\<open>conversation_id\<close> and \<^verbatim>\<open>current_admin?.id\<close>.
\<close>

datatype request_context = Context (location: "string option") (context_conversation_id: "string option")

record request_body =
  body_context :: "request_context option"
  current_admin_id :: "string option"

text \<open>
  The canvas that the handler answers with, reduced to the values it is built from: the
  status, the current elapsed time, and for each of the last five history records the
  duration \<^verbatim>\<open>session.final_duration || 0\<close> (the formatting of durations and dates is
  left out).
\<close>

datatype canvas =
    Please_open_a_conversation
  | Unable_to_identify
  | Time_tracker status int "int list"

definition or_zero :: "int option \<Rightarrow> int" where
  "or_zero d = (case d of None \<Rightarrow> 0 | Some v \<Rightarrow> v)"

definition get_history :: "server \<Rightarrow> string \<Rightarrow> ref list" where
  "get_history s historyKey =
     (case map_of (conversationHistory s) historyKey of None \<Rightarrow> [] | Some history \<Rightarrow> history)"

definition recentSessions :: "server \<Rightarrow> string \<Rightarrow> ref list" where
  "recentSessions s historyKey =
     (let history = get_history s historyKey in drop (length history - 5) history)"

definition initialize_logic :: "request_body \<Rightarrow> string \<Rightarrow> int \<Rightarrow> server \<Rightarrow> canvas \<times> server" where
  "initialize_logic body sessionId now s =
     (case body_context body of
        None \<Rightarrow> (Please_open_a_conversation, s)
      | Some ctx \<Rightarrow>
          if location ctx \<noteq> Some ''conversation'' then (Please_open_a_conversation, s)
          else
            (case (context_conversation_id ctx, current_admin_id body) of
               (Some conversationId, Some adminId) \<Rightarrow>
                 if conversationId = [] \<or> adminId = [] then (Unable_to_identify, s)
                 else
                   (let s' = start adminId conversationId sessionId now s;
                        timer = heap s' ! the (map_of (timers s') (timerKey adminId conversationId))
                    in (Time_tracker (status timer) (currentElapsed timer now)
                          (map (\<lambda>r. or_zero (final_duration (heap s' ! r)))
                             (recentSessions s' (timerKey adminId conversationId))),
                        s'))
             | _ \<Rightarrow> (Unable_to_identify, s)))"

text \<open>
  The route \<^verbatim>\<open>GET /test-initialize\<close> overwrites the request body with a fixed mock
  request and runs the initialize logic on it.
\<close>

definition mockRequest :: request_body where
  "mockRequest =
     \<lparr>body_context = Some (Context (Some ''conversation'') (Some ''test_conv_123'')),
      current_admin_id = Some ''test_admin_456''\<rparr>"

definition test_initialize :: "string \<Rightarrow> int \<Rightarrow> server \<Rightarrow> canvas \<times> server" where
  "test_initialize sessionId now s = initialize_logic mockRequest sessionId now s"

section \<open>Pause and resume\<close>

text \<open>
  Both routes answer \<^verbatim>\<open>{ success: true }\<close> whatever they found. The responses of the
  JSON routes are the constructors of one type.
\<close>

datatype js_number = Num rat | NaN | Infinity | Neg_Infinity

record analytics_result =
  total_sessions :: nat
  total_time :: int
  average_time :: js_number
  median_time :: int

datatype response =
    Success_true
  | Received_true
  | Invalid_signature
  | Uncaught_exception
  | Analytics analytics_result

definition pause :: "string \<Rightarrow> string \<Rightarrow> int \<Rightarrow> server \<Rightarrow> response \<times> server" where
  "pause adminId conversationId now s =
     (case map_of (timers s) (timerKey adminId conversationId) of
        None \<Rightarrow> (Success_true, s)
      | Some r \<Rightarrow>
          if status (heap s ! r) = Running
          then (Success_true,
                s\<lparr>heap := (heap s)[r := (heap s ! r)
                     \<lparr>total_elapsed := total_elapsed (heap s ! r) + (now - last_update (heap s ! r)),
                      status := Paused, last_update := now\<rparr>]\<rparr>)
          else (Success_true, s))"

definition resume :: "string \<Rightarrow> string \<Rightarrow> int \<Rightarrow> server \<Rightarrow> response \<times> server" where
  "resume adminId conversationId now s =
     (case map_of (timers s) (timerKey adminId conversationId) of
        None \<Rightarrow> (Success_true, s)
      | Some r \<Rightarrow>
          if status (heap s ! r) = Paused
          then (Success_true,
                s\<lparr>heap := (heap s)[r := (heap s ! r)\<lparr>status := Running, last_update := now\<rparr>]\<rparr>)
          else (Success_true, s))"

section \<open>Stopping a timer\<close>

text \<open>
  The field assignments of \<^verbatim>\<open>stopTimer\<close> (lines 322 to 328), on the timer object
  alone.
\<close>

definition stop_fields :: "int \<Rightarrow> timer \<Rightarrow> timer" where
  "stop_fields now t =
     (let elapsed = (if status t = Running then total_elapsed t + (now - last_update t)
                     else total_elapsed t)
      in t\<lparr>total_elapsed := elapsed, status := Stopped,
           final_duration := Some elapsed, end_time := Some now\<rparr>)"

text \<open>
  \<^verbatim>\<open>stopTimer(timer)\<close>: the argument is a reference. The object is updated in place,
  a copy of it is allocated and pushed onto the history array of its key, and the key
  is deleted from \<^verbatim>\<open>timers\<close>.
\<close>

definition stopTimer :: "ref \<Rightarrow> int \<Rightarrow> server \<Rightarrow> server" where
  "stopTimer r now s =
     (let timer = stop_fields now (heap s ! r);
          historyKey = key_of timer;
          history = get_history s historyKey
      in s\<lparr>heap := (heap s)[r := timer] @ [timer],
           conversationHistory :=
             AList.update historyKey (history @ [length (heap s)]) (conversationHistory s),
           timers := AList.delete historyKey (timers s)\<rparr>)"

section \<open>The webhook\<close>

text \<open>
  The loop \<^verbatim>\<open>for (const [timerKey, timer] of timers.entries())\<close> runs over the live
  map while \<^verbatim>\<open>stopTimer\<close> deletes from it. A JavaScript map iterator walks the
  entries in insertion order and passes over an entry that has been deleted in the
  meantime; \<^verbatim>\<open>stopTimer\<close> never adds an entry. So the loop walks the entries that
  the map had when it began and looks each key up in the current map before it visits
  it.
\<close>

fun close_loop :: "string \<Rightarrow> int \<Rightarrow> (string \<times> ref) list \<Rightarrow> server \<Rightarrow> server" where
  "close_loop conversationId now [] s = s"
| "close_loop conversationId now ((k, r0) # es) s =
     (case map_of (timers s) k of
        None \<Rightarrow> close_loop conversationId now es s
      | Some r \<Rightarrow>
          if conversation_id (heap s ! r) = conversationId
          then close_loop conversationId now es (stopTimer r now s)
          else close_loop conversationId now es s)"

text \<open>
  \<^verbatim>\<open>verifyIntercomSignature\<close> computes an HMAC, which is not modelled: its outcome is
  a parameter. It returns false without a signature, throws when the signature has
  another length than the expected one (\<^verbatim>\<open>crypto.timingSafeEqual\<close>), and compares
  otherwise.
\<close>

datatype signature_check = Signature_valid | Signature_invalid | Signature_length_differs

definition webhooks_conversations ::
  "signature_check \<Rightarrow> string \<Rightarrow> string \<Rightarrow> int \<Rightarrow> server \<Rightarrow> response \<times> server" where
  "webhooks_conversations sig event_type item_id now s =
     (case sig of
        Signature_invalid \<Rightarrow> (Invalid_signature, s)
      | Signature_length_differs \<Rightarrow> (Uncaught_exception, s)
      | Signature_valid \<Rightarrow>
          if event_type = ''conversation.admin.closed''
          then (Received_true, close_loop item_id now (timers s) s)
          else (Received_true, s))"

section \<open>Analytics\<close>

text \<open>
  \<^verbatim>\<open>key.startsWith(`${adminId}_`)\<close> selects the history arrays, whose elements are
  collected in the order of the map.
\<close>

definition adminSessions :: "string \<Rightarrow> server \<Rightarrow> ref list" where
  "adminSessions adminId s =
     concat (map snd (filter (\<lambda>(key, sessionsList). prefix (adminId @ ''_'') key)
                        (conversationHistory s)))"

text \<open>
  The filter \<^verbatim>\<open>s => s.final_duration\<close> keeps a record when the value is truthy: it
  drops a missing duration and also the number 0.
\<close>

definition truthy :: "int option \<Rightarrow> bool" where
  "truthy d = (case d of None \<Rightarrow> False | Some v \<Rightarrow> v \<noteq> 0)"

definition durations :: "string \<Rightarrow> server \<Rightarrow> int list" where
  "durations adminId s =
     sort (map (\<lambda>r. the (final_duration (heap s ! r)))
             (filter (\<lambda>r. truthy (final_duration (heap s ! r))) (adminSessions adminId s)))"

text \<open>
  JavaScript division of an integer by a length. The result is a double; the model
  keeps the exact quotient, and the special values of a division by zero.
\<close>

definition js_divide :: "int \<Rightarrow> nat \<Rightarrow> js_number" where
  "js_divide a n =
     (if n = 0 then (if a = 0 then NaN else if 0 < a then Infinity else Neg_Infinity)
      else Num (of_int a / of_nat n))"

definition analytics :: "string \<Rightarrow> server \<Rightarrow> analytics_result" where
  "analytics adminId s =
     (if length (adminSessions adminId s) = 0
      then \<lparr>total_sessions = 0, total_time = 0, average_time = Num 0, median_time = 0\<rparr>
      else
        (let ds = durations adminId s;
             totalTime = sum_list ds;
             averageTime = js_divide totalTime (length ds);
             medianTime = (if length ds > 0 then ds ! (length ds div 2) else 0)
         in \<lparr>total_sessions = length ds, total_time = totalTime,
              average_time = averageTime, median_time = medianTime\<rparr>))"

definition api_analytics :: "string \<Rightarrow> server \<Rightarrow> response \<times> server" where
  "api_analytics adminId s = (Analytics (analytics adminId s), s)"

section \<open>The commands of the server and the invariant of its store\<close>

text \<open>
  The routes that reach the timer state, as commands; \<open>exec\<close> is the state change of a
  command. The route \<^verbatim>\<open>POST /initialize\<close> only logs, and the health check and the
  dashboard only read.
\<close>

datatype command =
    Initialize request_body string int
  | Pause string string int
  | Resume string string int
  | Webhook signature_check string string int
  | Get_analytics string

fun exec :: "command \<Rightarrow> server \<Rightarrow> server" where
  "exec (Initialize body sessionId now) s = snd (initialize_logic body sessionId now s)"
| "exec (Pause adminId conversationId now) s = snd (pause adminId conversationId now s)"
| "exec (Resume adminId conversationId now) s = snd (resume adminId conversationId now s)"
| "exec (Webhook sig event_type item_id now) s =
     snd (webhooks_conversations sig event_type item_id now s)"
| "exec (Get_analytics adminId) s = snd (api_analytics adminId s)"

text \<open>A sequence of commands, run from left to right.\<close>

fun run :: "command list \<Rightarrow> server \<Rightarrow> server" where
  "run [] s = s"
| "run (cmd # cmds) s = run cmds (exec cmd s)"

text \<open>
  A timer object is live when it is running or paused. It is in the store when
  \<^verbatim>\<open>timers\<close> holds this very object under the key made of its two identifiers.
\<close>

definition live :: "timer \<Rightarrow> bool" where
  "live t \<longleftrightarrow> status t = Running \<or> status t = Paused"

definition in_store :: "server \<Rightarrow> ref \<Rightarrow> bool" where
  "in_store s r \<longleftrightarrow> map_of (timers s) (key_of (heap s ! r)) = Some r"

text \<open>
  The invariant: the keys of \<^verbatim>\<open>timers\<close> are distinct (it is a map); every entry
  refers to an allocated, live object and stands under the key of that object; and
  every live object is in the store.
\<close>

definition store_invariant :: "server \<Rightarrow> bool" where
  "store_invariant s \<longleftrightarrow>
     distinct (map fst (timers s)) \<and>
     list_all (\<lambda>(k, r). r < length (heap s) \<and> key_of (heap s ! r) = k \<and> live (heap s ! r))
       (timers s) \<and>
     (\<forall>r < length (heap s). live (heap s ! r) \<longrightarrow> in_store s r)"

section \<open>The initialize route starts a timer\<close>

lemma initialize_logic_start:
  assumes "body_context body = Some (Context (Some ''conversation'') (Some c))"
    and "current_admin_id body = Some a" and "c \<noteq> []" and "a \<noteq> []"
  shows "snd (initialize_logic body sid now s) = start a c sid now s"
  using assms by (simp add: initialize_logic_def Let_def)

lemma test_initialize_start:
  "snd (test_initialize sid now s) = start ''test_admin_456'' ''test_conv_123'' sid now s"
  by (simp add: test_initialize_def initialize_logic_start mockRequest_def)

section \<open>Basic facts about \<open>stopTimer\<close>\<close>

lemma key_of_stop_fields: "key_of (stop_fields now t) = key_of t"
  by (simp add: key_of_def stop_fields_def Let_def)

lemma live_stop_fields: "\<not> live (stop_fields now t)"
  by (simp add: live_def stop_fields_def Let_def)

lemma stop_fields_elapsed: "total_elapsed (stop_fields now t) = currentElapsed t now"
  by (simp add: stop_fields_def currentElapsed_def Let_def)

lemma stopTimer_heap:
  "heap (stopTimer r now s) =
     (heap s)[r := stop_fields now (heap s ! r)] @ [stop_fields now (heap s ! r)]"
  by (simp add: stopTimer_def Let_def)

lemma stopTimer_timers:
  "timers (stopTimer r now s) = AList.delete (key_of (heap s ! r)) (timers s)"
  by (simp add: stopTimer_def Let_def key_of_stop_fields)

lemma stopTimer_sessions: "sessions (stopTimer r now s) = sessions s"
  by (simp add: stopTimer_def Let_def)

lemma stopTimer_conversationHistory:
  "conversationHistory (stopTimer r now s) =
     AList.update (key_of (heap s ! r)) (get_history s (key_of (heap s ! r)) @ [length (heap s)])
       (conversationHistory s)"
  by (simp add: stopTimer_def Let_def key_of_stop_fields)

lemma get_history_stopTimer:
  "get_history (stopTimer r now s) k =
     (if k = key_of (heap s ! r) then get_history s k @ [length (heap s)] else get_history s k)"
  by (simp add: get_history_def stopTimer_conversationHistory update_conv')

lemma key_of_fields [simp]:
  "key_of (t\<lparr>status := x\<rparr>) = key_of t"
  "key_of (t\<lparr>last_update := y\<rparr>) = key_of t"
  "key_of (t\<lparr>total_elapsed := z\<rparr>) = key_of t"
  by (simp_all add: key_of_def)

section \<open>The invariant is kept by every command\<close>

text \<open>With distinct keys, the entries of the list are the bindings of the map.\<close>

lemma store_invariant_alt:
  "store_invariant s \<longleftrightarrow>
     distinct (map fst (timers s)) \<and>
     (\<forall>k r. map_of (timers s) k = Some r \<longrightarrow>
        r < length (heap s) \<and> key_of (heap s ! r) = k \<and> live (heap s ! r)) \<and>
     (\<forall>r < length (heap s). live (heap s ! r) \<longrightarrow> in_store s r)"
  by (auto simp: store_invariant_def list_all_iff)

lemma store_invariantI:
  assumes "distinct (map fst (timers s))"
    and "\<And>k r. map_of (timers s) k = Some r \<Longrightarrow>
           r < length (heap s) \<and> key_of (heap s ! r) = k \<and> live (heap s ! r)"
    and "\<And>r. r < length (heap s) \<Longrightarrow> live (heap s ! r) \<Longrightarrow>
           map_of (timers s) (key_of (heap s ! r)) = Some r"
  shows "store_invariant s"
  using assms by (simp add: store_invariant_alt in_store_def)

lemma store_invariantD:
  assumes "store_invariant s" and "map_of (timers s) k = Some r"
  shows "r < length (heap s)" and "key_of (heap s ! r) = k" and "live (heap s ! r)"
  using assms by (auto simp: store_invariant_alt)

lemma store_invariant_live:
  assumes "store_invariant s" and "r < length (heap s)" and "live (heap s ! r)"
  shows "map_of (timers s) (key_of (heap s ! r)) = Some r"
  using assms by (auto simp: store_invariant_alt in_store_def)

lemma store_invariant_in_store:
  assumes "store_invariant s" and "r < length (heap s)"
  shows "in_store s r \<longleftrightarrow> live (heap s ! r)"
  using assms store_invariantD(3) [OF assms(1), of "key_of (heap s ! r)" r]
  by (auto simp: store_invariant_alt in_store_def)

lemma store_invariant_initial: "store_invariant initial_server"
  by (simp add: store_invariant_alt initial_server_def)

text \<open>Writing a stored object without changing its key or its liveness.\<close>

lemma store_invariant_heap_update:
  assumes inv: "store_invariant s" and r: "r < length (heap s)"
    and key: "key_of t = key_of (heap s ! r)" and lv: "live t = live (heap s ! r)"
  shows "store_invariant (s\<lparr>heap := (heap s)[r := t]\<rparr>)"
proof -
  have same_key: "key_of ((heap s)[r := t] ! x) = key_of (heap s ! x)" for x
    using r key by (cases "x = r") simp_all
  have same_live: "live ((heap s)[r := t] ! x) = live (heap s ! x)" for x
    using r lv by (cases "x = r") simp_all
  show ?thesis
    using inv by (simp add: store_invariant_alt in_store_def same_key same_live)
qed

text \<open>Allocating a live object under a key that the store does not hold.\<close>

lemma store_invariant_allocate:
  assumes inv: "store_invariant s" and absent: "map_of (timers s) (key_of t) = None"
    and lv: "live t"
  shows "store_invariant
           (s\<lparr>heap := heap s @ [t],
              timers := AList.update (key_of t) (length (heap s)) (timers s),
              sessions := ss\<rparr>)"
proof -
  let ?T = "AList.update (key_of t) (length (heap s)) (timers s)"
  let ?H = "heap s @ [t]"
  let ?S = "s\<lparr>heap := ?H, timers := ?T, sessions := ss\<rparr>"
  have h: "heap ?S = ?H" and tm: "timers ?S = ?T" by simp_all
  have d1: "distinct (map fst ?T)"
    using inv by (simp add: distinct_update store_invariant_alt)
  have d2: "r < length ?H \<and> key_of (?H ! r) = k \<and> live (?H ! r)"
    if "map_of ?T k = Some r" for k r
  proof -
    from that have "k = key_of t \<and> r = length (heap s)
        \<or> k \<noteq> key_of t \<and> map_of (timers s) k = Some r"
      by (auto simp: update_conv' split: if_splits)
    then show ?thesis
      using store_invariantD [OF inv, of k r] lv by (auto simp: nth_append)
  qed
  have d3: "map_of ?T (key_of (?H ! r)) = Some r"
    if r: "r < length ?H" and l: "live (?H ! r)" for r
  proof (cases "r = length (heap s)")
    case True
    then show ?thesis by (simp add: update_conv')
  next
    case False
    with r l have "r < length (heap s)" and "live (heap s ! r)"
      by (simp_all add: nth_append)
    then have "map_of (timers s) (key_of (heap s ! r)) = Some r"
      by (rule store_invariant_live [OF inv])
    moreover from this absent have "key_of (heap s ! r) \<noteq> key_of t" by auto
    ultimately show ?thesis
      using \<open>r < length (heap s)\<close> by (simp add: update_conv' nth_append)
  qed
  show ?thesis
    by (rule store_invariantI) (simp_all only: h tm d1 d2 d3)
qed

lemma store_invariant_start:
  assumes "store_invariant s"
  shows "store_invariant (start a c sid now s)"
proof (cases "map_of (timers s) (timerKey a c)")
  case None
  then show ?thesis
    using store_invariant_allocate [OF assms,
        of "\<lparr>admin_id = a, conversation_id = c, session_id = sid, start_time = now,
              total_elapsed = 0, status = Running, last_update = now,
              final_duration = None, end_time = None\<rparr>"
           "AList.update sid (length (heap s)) (sessions s)"]
    by (simp add: start_def key_of_def live_def)
next
  case (Some r)
  show ?thesis
  proof (cases "status (heap s ! r) = Paused")
    case False
    then show ?thesis using Some assms by (simp add: start_def)
  next
    case True
    then show ?thesis
      using Some store_invariant_heap_update [OF assms store_invariantD(1) [OF assms Some],
          of "(heap s ! r)\<lparr>status := Running, last_update := now\<rparr>"]
      by (simp add: start_def live_def)
  qed
qed

lemma store_invariant_pause:
  assumes "store_invariant s"
  shows "store_invariant (snd (pause a c now s))"
proof (cases "map_of (timers s) (timerKey a c)")
  case None
  then show ?thesis using assms by (simp add: pause_def)
next
  case (Some r)
  show ?thesis
  proof (cases "status (heap s ! r) = Running")
    case False
    then show ?thesis using Some assms by (simp add: pause_def)
  next
    case True
    then show ?thesis
      using Some store_invariant_heap_update [OF assms store_invariantD(1) [OF assms Some],
          of "(heap s ! r)\<lparr>total_elapsed :=
                 total_elapsed (heap s ! r) + (now - last_update (heap s ! r)),
               status := Paused, last_update := now\<rparr>"]
      by (simp add: pause_def live_def)
  qed
qed

lemma store_invariant_resume:
  assumes "store_invariant s"
  shows "store_invariant (snd (resume a c now s))"
proof (cases "map_of (timers s) (timerKey a c)")
  case None
  then show ?thesis using assms by (simp add: resume_def)
next
  case (Some r)
  show ?thesis
  proof (cases "status (heap s ! r) = Paused")
    case False
    then show ?thesis using Some assms by (simp add: resume_def)
  next
    case True
    then show ?thesis
      using Some store_invariant_heap_update [OF assms store_invariantD(1) [OF assms Some],
          of "(heap s ! r)\<lparr>status := Running, last_update := now\<rparr>"]
      by (simp add: resume_def live_def)
  qed
qed

text \<open>Stopping a timer that the store holds.\<close>

lemma store_invariant_stopTimer:
  assumes inv: "store_invariant s" and stored: "map_of (timers s) k = Some r"
  shows "store_invariant (stopTimer r now s)"
proof -
  note d = store_invariantD [OF inv stored]
  let ?t = "stop_fields now (heap s ! r)"
  let ?H = "(heap s)[r := ?t] @ [?t]"
  let ?T = "AList.delete k (timers s)"
  have h: "heap (stopTimer r now s) = ?H" by (rule stopTimer_heap)
  have tm: "timers (stopTimer r now s) = ?T"
    using d by (simp add: stopTimer_timers)
  have d1: "distinct (map fst ?T)"
    using inv by (simp add: distinct_delete store_invariant_alt)
  have d2: "r' < length ?H \<and> key_of (?H ! r') = k' \<and> live (?H ! r')"
    if "map_of ?T k' = Some r'" for k' r'
  proof -
    from that have k': "k' \<noteq> k" and old: "map_of (timers s) k' = Some r'"
      by (auto simp: delete_conv' split: if_splits)
    note d' = store_invariantD [OF inv old]
    from d' d k' have "r' \<noteq> r" by auto
    with d' d show ?thesis by (simp add: nth_append)
  qed
  have d3: "map_of ?T (key_of (?H ! r')) = Some r'"
    if r': "r' < length ?H" and l: "live (?H ! r')" for r'
  proof -
    from l have "r' \<noteq> length (heap s)" by (auto simp: nth_append live_stop_fields)
    moreover from l d have "r' \<noteq> r" by (auto simp: nth_append live_stop_fields)
    ultimately have r'': "r' < length (heap s)" and same: "?H ! r' = heap s ! r'"
      using r' by (simp_all add: nth_append)
    from l same have "map_of (timers s) (key_of (heap s ! r')) = Some r'"
      using store_invariant_live [OF inv r''] by simp
    moreover from this stored \<open>r' \<noteq> r\<close> have "key_of (heap s ! r') \<noteq> k" by auto
    ultimately show ?thesis by (simp add: same delete_conv')
  qed
  show ?thesis
    by (rule store_invariantI) (simp_all only: h tm d1 d2 d3)
qed

lemma store_invariant_close_loop:
  "store_invariant s \<Longrightarrow> store_invariant (close_loop c now es s)"
proof (induction es arbitrary: s)
  case Nil
  then show ?case by simp
next
  case (Cons e es)
  obtain k r0 where e: "e = (k, r0)" by (cases e)
  show ?case
  proof (cases "map_of (timers s) k")
    case None
    then show ?thesis using Cons e by simp
  next
    case (Some r)
    then show ?thesis
      using Cons e store_invariant_stopTimer [OF Cons.prems Some] by simp
  qed
qed

lemma store_invariant_exec:
  assumes "store_invariant s"
  shows "store_invariant (exec cmd s)"
proof (cases cmd)
  case (Initialize body sid now)
  then show ?thesis
    using assms store_invariant_start [OF assms]
    by (auto simp: initialize_logic_def Let_def split: option.splits)
next
  case (Pause a c now)
  then show ?thesis using store_invariant_pause [OF assms] by simp
next
  case (Resume a c now)
  then show ?thesis using store_invariant_resume [OF assms] by simp
next
  case (Webhook sig ty c now)
  then show ?thesis
    using assms store_invariant_close_loop [OF assms]
    by (simp add: webhooks_conversations_def split: signature_check.splits)
next
  case (Get_analytics a)
  then show ?thesis using assms by (simp add: api_analytics_def)
qed

lemma store_invariant_run:
  "store_invariant s \<Longrightarrow> store_invariant (run cmds s)"
  by (induction cmds arbitrary: s) (simp_all add: store_invariant_exec)

section \<open>The loop of the webhook\<close>

lemma stopTimer_nth_other:
  "b < length (heap s) \<Longrightarrow> b \<noteq> r \<Longrightarrow> heap (stopTimer r now s) ! b = heap s ! b"
  by (simp add: stopTimer_heap nth_append)

lemma stopTimer_nth_self:
  "r < length (heap s) \<Longrightarrow> heap (stopTimer r now s) ! r = stop_fields now (heap s ! r)"
  by (simp add: stopTimer_heap nth_append)

lemma stopTimer_nth_copy:
  "heap (stopTimer r now s) ! length (heap s) = stop_fields now (heap s ! r)"
  by (simp add: stopTimer_heap nth_append)

lemma stopTimer_length: "length (heap (stopTimer r now s)) = Suc (length (heap s))"
  by (simp add: stopTimer_heap)

lemma close_loop_length: "length (heap s) \<le> length (heap (close_loop c now es s))"
proof (induction es arbitrary: s)
  case Nil
  show ?case by simp
next
  case (Cons e es)
  obtain k r0 where e: "e = (k, r0)" by (cases e)
  show ?case
  proof (cases "map_of (timers s) k")
    case None
    then show ?thesis using Cons e by simp
  next
    case (Some r)
    have "length (heap s) \<le> length (heap (stopTimer r now s))"
      by (simp add: stopTimer_length)
    also have "\<dots> \<le> length (heap (close_loop c now es (stopTimer r now s)))"
      by (rule Cons.IH)
    finally show ?thesis using Some e Cons.IH [of s] by simp
  qed
qed

lemma close_loop_not_live:
  assumes "store_invariant s" and "b < length (heap s)" and "\<not> live (heap s ! b)"
  shows "heap (close_loop c now es s) ! b = heap s ! b"
  using assms
proof (induction es arbitrary: s)
  case Nil
  show ?case by simp
next
  case (Cons e es)
  obtain k r0 where e: "e = (k, r0)" by (cases e)
  show ?case
  proof (cases "map_of (timers s) k")
    case None
    then show ?thesis using Cons e by simp
  next
    case (Some r)
    show ?thesis
    proof (cases "conversation_id (heap s ! r) = c")
      case False
      then show ?thesis using Cons e Some by simp
    next
      case True
      let ?s1 = "stopTimer r now s"
      from store_invariantD(3) [OF Cons.prems(1) Some] Cons.prems(3) have ne: "b \<noteq> r" by auto
      have same: "heap ?s1 ! b = heap s ! b"
        using Cons.prems(2) ne by (rule stopTimer_nth_other)
      have "heap (close_loop c now es ?s1) ! b = heap ?s1 ! b"
      proof (rule Cons.IH)
        show "store_invariant ?s1" using Cons.prems(1) Some by (rule store_invariant_stopTimer)
        show "b < length (heap ?s1)" using Cons.prems(2) by (simp add: stopTimer_length)
        show "\<not> live (heap ?s1 ! b)" using Cons.prems(3) same by simp
      qed
      with same show ?thesis using e Some True by simp
    qed
  qed
qed

lemma stopTimer_other_key:
  assumes inv: "store_invariant s" and stored: "map_of (timers s) k0 = Some r1"
    and ne: "k \<noteq> k0"
  shows "map_of (timers (stopTimer r1 now s)) k = map_of (timers s) k"
    and "get_history (stopTimer r1 now s) k = get_history s k"
    and "map_of (timers s) k = Some r \<Longrightarrow> heap (stopTimer r1 now s) ! r = heap s ! r"
proof -
  note d = store_invariantD [OF inv stored]
  show "map_of (timers (stopTimer r1 now s)) k = map_of (timers s) k"
    using d ne by (simp add: stopTimer_timers delete_conv')
  show "get_history (stopTimer r1 now s) k = get_history s k"
    using d ne by (simp add: get_history_stopTimer)
  show "heap (stopTimer r1 now s) ! r = heap s ! r" if "map_of (timers s) k = Some r"
  proof -
    note d' = store_invariantD [OF inv that]
    from d d' ne have "r \<noteq> r1" by auto
    with d' show ?thesis by (simp add: stopTimer_nth_other)
  qed
qed

lemma close_loop_other_key:
  assumes "store_invariant s"
    and "\<forall>r. map_of (timers s) k = Some r \<longrightarrow> conversation_id (heap s ! r) \<noteq> c"
  shows "map_of (timers (close_loop c now es s)) k = map_of (timers s) k
       \<and> get_history (close_loop c now es s) k = get_history s k
       \<and> (\<forall>r. map_of (timers s) k = Some r \<longrightarrow> heap (close_loop c now es s) ! r = heap s ! r)"
  using assms
proof (induction es arbitrary: s)
  case Nil
  show ?case by simp
next
  case (Cons e es)
  obtain k0 r0 where e: "e = (k0, r0)" by (cases e)
  note IH = Cons.IH [OF Cons.prems]
  show ?case
  proof (cases "map_of (timers s) k0")
    case None
    then show ?thesis using IH e by simp
  next
    case (Some r1)
    show ?thesis
    proof (cases "conversation_id (heap s ! r1) = c")
      case False
      then show ?thesis using IH e Some by simp
    next
      case True
      let ?s1 = "stopTimer r1 now s"
      from True Some Cons.prems(2) have ne: "k \<noteq> k0" by auto
      note o = stopTimer_other_key [OF Cons.prems(1) Some ne, where now = now]
      have inv1: "store_invariant ?s1"
        using Cons.prems(1) Some by (rule store_invariant_stopTimer)
      have "map_of (timers (close_loop c now es ?s1)) k = map_of (timers ?s1) k
       \<and> get_history (close_loop c now es ?s1) k = get_history ?s1 k
       \<and> (\<forall>r. map_of (timers ?s1) k = Some r \<longrightarrow> heap (close_loop c now es ?s1) ! r = heap ?s1 ! r)"
      proof (rule Cons.IH [OF inv1], intro allI impI)
        fix r assume "map_of (timers ?s1) k = Some r"
        then have "map_of (timers s) k = Some r" by (simp add: o(1))
        then show "conversation_id (heap ?s1 ! r) \<noteq> c"
          using Cons.prems(2) o(3) [of r] by simp
      qed
      then show ?thesis using e Some True o by simp
    qed
  qed
qed

lemma close_loop_matching_key:
  assumes "store_invariant s" and "map_of (timers s) k = Some r"
    and "conversation_id (heap s ! r) = c" and "k \<in> fst ` set es"
  shows "map_of (timers (close_loop c now es s)) k = None
       \<and> heap (close_loop c now es s) ! r = stop_fields now (heap s ! r)
       \<and> (\<exists>b. get_history (close_loop c now es s) k = get_history s k @ [b]
              \<and> length (heap s) \<le> b \<and> b < length (heap (close_loop c now es s))
              \<and> heap (close_loop c now es s) ! b = stop_fields now (heap s ! r))"
  using assms
proof (induction es arbitrary: s)
  case Nil
  then show ?case by simp
next
  case (Cons e es)
  obtain k0 r0 where e: "e = (k0, r0)" by (cases e)
  note inv = Cons.prems(1) and stored = Cons.prems(2) and conv = Cons.prems(3)
  note d = store_invariantD [OF inv stored]
  show ?case
  proof (cases "k0 = k")
    case True
    let ?s1 = "stopTimer r now s"
    let ?s' = "close_loop c now es ?s1"
    let ?n = "length (heap s)"
    have step: "close_loop c now (e # es) s = ?s'"
      using e True stored conv by simp
    have inv1: "store_invariant ?s1" using inv stored by (rule store_invariant_stopTimer)
    have absent1: "map_of (timers ?s1) k = None"
      using d by (simp add: stopTimer_timers delete_conv')
    have hist1: "get_history ?s1 k = get_history s k @ [?n]"
      using d by (simp add: get_history_stopTimer)
    have o: "map_of (timers ?s') k = map_of (timers ?s1) k
       \<and> get_history ?s' k = get_history ?s1 k
       \<and> (\<forall>r. map_of (timers ?s1) k = Some r \<longrightarrow> heap ?s' ! r = heap ?s1 ! r)"
      by (rule close_loop_other_key [OF inv1]) (simp add: absent1)
    have r': "heap ?s' ! r = heap ?s1 ! r"
      using d by (intro close_loop_not_live [OF inv1])
        (simp_all add: stopTimer_length stopTimer_nth_self live_stop_fields)
    have n': "heap ?s' ! ?n = heap ?s1 ! ?n"
      by (rule close_loop_not_live [OF inv1])
        (simp_all add: stopTimer_length stopTimer_nth_copy live_stop_fields)
    have len: "?n < length (heap ?s')"
      using close_loop_length [of ?s1 c now es] by (simp add: stopTimer_length)
    show ?thesis
      unfolding step
      using o absent1 hist1 r' n' len d
      by (auto simp: stopTimer_nth_self stopTimer_nth_copy)
  next
    case False
    with Cons.prems(4) e have mem: "k \<in> fst ` set es" by auto
    show ?thesis
    proof (cases "map_of (timers s) k0")
      case None
      then show ?thesis using Cons.IH [OF inv stored conv mem] e by simp
    next
      case (Some r1)
      show ?thesis
      proof (cases "conversation_id (heap s ! r1) = c")
        case F: False
        then show ?thesis using Cons.IH [OF inv stored conv mem] e Some by simp
      next
        case True
        let ?s1 = "stopTimer r1 now s"
        let ?s' = "close_loop c now es ?s1"
        have step: "close_loop c now (e # es) s = ?s'"
          using e Some True by simp
        have ne: "k \<noteq> k0" using False by simp
        note o = stopTimer_other_key [OF inv Some ne, where now = now]
        have inv1: "store_invariant ?s1" using inv Some by (rule store_invariant_stopTimer)
        have stored1: "map_of (timers ?s1) k = Some r" using stored by (simp add: o(1))
        have same: "heap ?s1 ! r = heap s ! r" using stored by (rule o(3))
        have conv1: "conversation_id (heap ?s1 ! r) = c" using conv same by simp
        from Cons.IH [OF inv1 stored1 conv1 mem]
        show ?thesis
          unfolding step same o(2)
          by (auto simp: stopTimer_length)
      qed
    qed
  qed
qed




section \<open>Objects that are not live are never written\<close>

lemma exec_not_live:
  assumes inv: "store_invariant s" and b: "b < length (heap s)" and nl: "\<not> live (heap s ! b)"
  shows "heap (exec cmd s) ! b = heap s ! b \<and> b < length (heap (exec cmd s))"
proof -
  have upd: "heap (s\<lparr>heap := (heap s)[r := t]\<rparr>) ! b = heap s ! b
      \<and> b < length (heap (s\<lparr>heap := (heap s)[r := t]\<rparr>))"
    if "map_of (timers s) k = Some r" for k r t
  proof -
    from store_invariantD(3) [OF inv that] nl have "r \<noteq> b" by auto
    then show ?thesis using b by simp
  qed
  have st: "heap (start a c sid now s) ! b = heap s ! b \<and> b < length (heap (start a c sid now s))"
    for a c sid now
    using upd b by (auto simp: start_def nth_append split: option.splits)
  show ?thesis
  proof (cases cmd)
    case (Initialize body sid now)
    then show ?thesis
      using st b by (auto simp: initialize_logic_def Let_def split: option.splits)
  next
    case (Pause a c now)
    then show ?thesis using upd b by (auto simp: pause_def split: option.splits)
  next
    case (Resume a c now)
    then show ?thesis using upd b by (auto simp: resume_def split: option.splits)
  next
    case (Webhook sig ty c now)
    then show ?thesis
      using close_loop_not_live [OF assms, of c now "timers s"]
        close_loop_length [of s c now "timers s"] b
      by (auto simp: webhooks_conversations_def split: signature_check.splits)
  next
    case (Get_analytics a)
    then show ?thesis using b by (simp add: api_analytics_def)
  qed
qed

lemma run_not_live:
  assumes "store_invariant s" and "b < length (heap s)" and "\<not> live (heap s ! b)"
  shows "heap (run cmds s) ! b = heap s ! b"
  using assms
proof (induction cmds arbitrary: s)
  case Nil
  show ?case by simp
next
  case (Cons cmd cmds)
  note e = exec_not_live [OF Cons.prems, of cmd]
  have "heap (run cmds (exec cmd s)) ! b = heap (exec cmd s) ! b"
  proof (rule Cons.IH)
    show "store_invariant (exec cmd s)" using Cons.prems(1) by (rule store_invariant_exec)
    show "b < length (heap (exec cmd s))" using e by simp
    show "\<not> live (heap (exec cmd s) ! b)" using e Cons.prems(3) by simp
  qed
  with e show ?case by simp
qed

section \<open>Analytics on durations that are not zero\<close>

lemma sum_list_insort: "sum_list (insort x xs) = x + sum_list (xs :: int list)"
  by (induction xs) auto

lemma sum_list_sort: "sum_list (sort xs) = sum_list (xs :: int list)"
  by (induction xs) (auto simp: sum_list_insort)

lemma sort_eq_Nil_iff: "sort xs = [] \<longleftrightarrow> xs = ([] :: int list)"
  by (metis length_0_conv length_sort)

lemma analytics_nonzero_durations:
  assumes nonempty: "adminSessions a s \<noteq> []"
    and nonzero: "\<forall>r \<in> set (adminSessions a s). \<exists>d. final_duration (heap s ! r) = Some d \<and> d \<noteq> 0"
  shows "(let ds = map (\<lambda>r. the (final_duration (heap s ! r))) (adminSessions a s)
          in analytics a s =
               \<lparr>total_sessions = length ds,
                total_time = sum_list ds,
                average_time = Num (of_int (sum_list ds) / of_nat (length ds)),
                median_time = sort ds ! (length ds div 2)\<rparr>)"
proof -
  have keep: "filter (\<lambda>r. truthy (final_duration (heap s ! r))) (adminSessions a s)
      = adminSessions a s"
    using nonzero by (auto simp: truthy_def intro!: filter_True)
  show ?thesis
    using nonempty
    by (simp add: analytics_def durations_def keep Let_def js_divide_def sum_list_sort
        sort_eq_Nil_iff)
qed

lemma analytics_no_sessions:
  "adminSessions a s = [] \<Longrightarrow>
     analytics a s = \<lparr>total_sessions = 0, total_time = 0, average_time = Num 0, median_time = 0\<rparr>"
  by (simp add: analytics_def)

section \<open>The claims\<close>

subsection \<open>C1: the duration of start, pause, resume, stop\<close>

text \<open>
  Claim C1. A key without an active timer is started at \<open>t0\<close>, paused at \<open>t1\<close>,
  resumed at \<open>t2\<close> and stopped at \<open>t3\<close>, with \<open>t0 \<le> t1 \<le> t2 \<le> t3\<close>. The timer
  is the object allocated by the start. After the pause its \<open>total_elapsed\<close> is
  \<open>t1 - t0\<close>; after the stop its \<open>final_duration\<close>, and the one of the record at the
  end of the history of the key, is \<open>(t1 - t0) + (t3 - t2)\<close>: the paused interval is
  left out.
\<close>

theorem start_pause_resume_stop_duration:
  assumes absent: "map_of (timers s) (timerKey a c) = None"
    and "t0 \<le> t1" and "t1 \<le> t2" and "t2 \<le> t3"
  shows "(let r = length (heap s);
              s1 = start a c sid t0 s;
              s2 = snd (pause a c t1 s1);
              s3 = snd (resume a c t2 s2);
              s4 = stopTimer r t3 s3
          in map_of (timers s3) (timerKey a c) = Some r
           \<and> total_elapsed (heap s2 ! r) = t1 - t0
           \<and> final_duration (heap s4 ! r) = Some ((t1 - t0) + (t3 - t2))
           \<and> final_duration (heap s4 ! last (get_history s4 (timerKey a c)))
               = Some ((t1 - t0) + (t3 - t2)))"
  using absent
  by (simp add: Let_def start_def pause_def resume_def update_conv' get_history_stopTimer
      stopTimer_heap stop_fields_def key_of_def nth_append)

theorem start_pause_resume_stop_duration_witness:
  "map_of (timers initial_server) (timerKey ''A'' ''C'') = None
   \<and> (0::int) \<le> 10000 \<and> (10000::int) \<le> 15000 \<and> (15000::int) \<le> 25000
   \<and> (let s1 = start ''A'' ''C'' ''u'' 0 initial_server;
           s2 = snd (pause ''A'' ''C'' 10000 s1);
           s3 = snd (resume ''A'' ''C'' 15000 s2);
           s4 = stopTimer 0 25000 s3
       in total_elapsed (heap s2 ! 0) = 10000
        \<and> final_duration (heap s4 ! 0) = Some 20000
        \<and> final_duration (heap s4 ! last (get_history s4 ''A_C'')) = Some 20000)"
proof -
  have absent: "map_of (timers initial_server) (timerKey ''A'' ''C'') = None"
    by (simp add: initial_server_def)
  from start_pause_resume_stop_duration
         [OF absent, of 0 10000 15000 25000 "''u''"] absent
  show ?thesis
    by (simp add: initial_server_def timerKey_def Let_def)
qed

subsection \<open>C2: the active store holds exactly the live timers\<close>

text \<open>
  Claim C2. The invariant holds in the initial state and every command keeps it, so it
  holds in every state that a sequence of commands reaches from the initial one. Under
  it a timer object is in the active store, under the key of its operator and its
  conversation, if and only if its status is Running or Paused. Right after
  \<^verbatim>\<open>stopTimer\<close> the key is absent from the active store, the timer is Stopped with
  the elapsed time of that moment, and the last element of the history of the key is
  a record with the session id of the timer and with that elapsed time as its
  \<open>final_duration\<close>.
\<close>

theorem active_store_invariant:
  "store_invariant (run cmds initial_server)
   \<and> (store_invariant s \<longrightarrow>
        store_invariant (exec cmd s)
        \<and> (\<forall>r < length (heap s).
              in_store s r \<longleftrightarrow> status (heap s ! r) = Running \<or> status (heap s ! r) = Paused))
   \<and> (r < length (heap s) \<longrightarrow>
        (let s' = stopTimer r now s; k = key_of (heap s ! r)
         in map_of (timers s') k = None
          \<and> status (heap s' ! r) = Stopped
          \<and> total_elapsed (heap s' ! r) = currentElapsed (heap s ! r) now
          \<and> get_history s' k = get_history s k @ [length (heap s)]
          \<and> session_id (heap s' ! last (get_history s' k)) = session_id (heap s ! r)
          \<and> final_duration (heap s' ! last (get_history s' k))
              = Some (total_elapsed (heap s' ! r))))"
proof (intro conjI impI)
  show "store_invariant (run cmds initial_server)"
    using store_invariant_initial by (rule store_invariant_run)
next
  assume "store_invariant s"
  then show "store_invariant (exec cmd s)" by (rule store_invariant_exec)
next
  assume "store_invariant s"
  then show "\<forall>r < length (heap s).
      in_store s r \<longleftrightarrow> status (heap s ! r) = Running \<or> status (heap s ! r) = Paused"
    using store_invariant_in_store by (simp add: live_def)
next
  assume "r < length (heap s)"
  then show "(let s' = stopTimer r now s; k = key_of (heap s ! r)
         in map_of (timers s') k = None
          \<and> status (heap s' ! r) = Stopped
          \<and> total_elapsed (heap s' ! r) = currentElapsed (heap s ! r) now
          \<and> get_history s' k = get_history s k @ [length (heap s)]
          \<and> session_id (heap s' ! last (get_history s' k)) = session_id (heap s ! r)
          \<and> final_duration (heap s' ! last (get_history s' k))
              = Some (total_elapsed (heap s' ! r)))"
    by (simp add: Let_def stopTimer_timers delete_conv' stopTimer_heap get_history_stopTimer
        nth_append stop_fields_elapsed) (simp add: stop_fields_def currentElapsed_def Let_def)
qed

theorem active_store_invariant_witness:
  "store_invariant (start ''A'' ''C'' ''u'' 0 initial_server)
   \<and> (0::nat) < length (heap (start ''A'' ''C'' ''u'' 0 initial_server))
   \<and> store_invariant (exec (Webhook Signature_valid ''conversation.admin.closed'' ''C'' 9)
        (start ''A'' ''C'' ''u'' 0 initial_server))
   \<and> in_store (start ''A'' ''C'' ''u'' 0 initial_server) 0
   \<and> map_of (timers (stopTimer 0 9 (start ''A'' ''C'' ''u'' 0 initial_server))) ''A_C'' = None
   \<and> get_history (stopTimer 0 9 (start ''A'' ''C'' ''u'' 0 initial_server)) ''A_C'' = [1]
   \<and> session_id (heap (stopTimer 0 9 (start ''A'' ''C'' ''u'' 0 initial_server)) ! 1) = ''u''
   \<and> final_duration (heap (stopTimer 0 9 (start ''A'' ''C'' ''u'' 0 initial_server)) ! 1) = Some 9"
proof -
  have s: "start ''A'' ''C'' ''u'' 0 initial_server =
      \<lparr>heap = [\<lparr>admin_id = ''A'', conversation_id = ''C'', session_id = ''u'',
                 start_time = 0, total_elapsed = 0, status = Running, last_update = 0,
                 final_duration = None, end_time = None\<rparr>],
       timers = [(''A_C'', 0)], sessions = [(''u'', 0)], conversationHistory = []\<rparr>"
    by (simp add: start_def initial_server_def timerKey_def)
  have inv: "store_invariant (start ''A'' ''C'' ''u'' 0 initial_server)"
    unfolding s by (simp add: store_invariant_def in_store_def live_def key_of_def timerKey_def)
  have len: "(0::nat) < length (heap (start ''A'' ''C'' ''u'' 0 initial_server))"
    unfolding s by simp
  have ev: "in_store (start ''A'' ''C'' ''u'' 0 initial_server) 0
   \<and> map_of (timers (stopTimer 0 9 (start ''A'' ''C'' ''u'' 0 initial_server))) ''A_C'' = None
   \<and> get_history (stopTimer 0 9 (start ''A'' ''C'' ''u'' 0 initial_server)) ''A_C'' = [1]
   \<and> session_id (heap (stopTimer 0 9 (start ''A'' ''C'' ''u'' 0 initial_server)) ! 1) = ''u''
   \<and> final_duration (heap (stopTimer 0 9 (start ''A'' ''C'' ''u'' 0 initial_server)) ! 1) = Some 9"
    unfolding s
    by (simp add: in_store_def stopTimer_def stop_fields_def Let_def key_of_def timerKey_def
        get_history_def)
  from active_store_invariant [of "[]" "start ''A'' ''C'' ''u'' 0 initial_server"
      "Webhook Signature_valid ''conversation.admin.closed'' ''C'' 9" 0 9] inv
  have "store_invariant (exec (Webhook Signature_valid ''conversation.admin.closed'' ''C'' 9)
        (start ''A'' ''C'' ''u'' 0 initial_server))"
    by blast
  with inv len ev show ?thesis by blast
qed

subsection \<open>C3: a closed conversation stops the timers of that conversation\<close>

text \<open>
  Claim C3. In a state that satisfies the invariant, the webhook with a valid signature
  and the event \<^verbatim>\<open>conversation.admin.closed\<close> for conversation \<open>c\<close> does the
  following. Every timer of the active store whose conversation is \<open>c\<close>, whatever its
  operator, is removed from the store, has the fields that \<^verbatim>\<open>stopTimer\<close> assigns,
  and the history of its key has grown by exactly one record, a new object with the
  same fields: none is skipped and none is stopped twice. Every timer of another
  conversation is still in the store, its object is unchanged and so is the history of
  its key. A key without a timer has none afterwards and its history is unchanged.
\<close>

theorem conversation_closed_stops_matching_timers:
  assumes "store_invariant s"
  shows "(let s' = snd (webhooks_conversations Signature_valid ''conversation.admin.closed'' c now s)
          in (\<forall>k r. map_of (timers s) k = Some r \<and> conversation_id (heap s ! r) = c \<longrightarrow>
                map_of (timers s') k = None
                \<and> heap s' ! r = stop_fields now (heap s ! r)
                \<and> (\<exists>b. get_history s' k = get_history s k @ [b]
                       \<and> length (heap s) \<le> b \<and> b < length (heap s')
                       \<and> heap s' ! b = stop_fields now (heap s ! r)))
           \<and> (\<forall>k r. map_of (timers s) k = Some r \<and> conversation_id (heap s ! r) \<noteq> c \<longrightarrow>
                map_of (timers s') k = Some r
                \<and> heap s' ! r = heap s ! r
                \<and> get_history s' k = get_history s k)
           \<and> (\<forall>k. map_of (timers s) k = None \<longrightarrow>
                map_of (timers s') k = None \<and> get_history s' k = get_history s k))"
proof -
  let ?s' = "close_loop c now (timers s) s"
  have matching:
    "\<forall>k r. map_of (timers s) k = Some r \<and> conversation_id (heap s ! r) = c \<longrightarrow>
       map_of (timers ?s') k = None
       \<and> heap ?s' ! r = stop_fields now (heap s ! r)
       \<and> (\<exists>b. get_history ?s' k = get_history s k @ [b]
              \<and> length (heap s) \<le> b \<and> b < length (heap ?s')
              \<and> heap ?s' ! b = stop_fields now (heap s ! r))"
  proof (intro allI impI, elim conjE)
    fix k r
    assume stored: "map_of (timers s) k = Some r" and conv: "conversation_id (heap s ! r) = c"
    from stored have "(k, r) \<in> set (timers s)" by (rule map_of_SomeD)
    then have "k \<in> fst ` set (timers s)" by force
    with assms stored conv
    show "map_of (timers ?s') k = None
       \<and> heap ?s' ! r = stop_fields now (heap s ! r)
       \<and> (\<exists>b. get_history ?s' k = get_history s k @ [b]
              \<and> length (heap s) \<le> b \<and> b < length (heap ?s')
              \<and> heap ?s' ! b = stop_fields now (heap s ! r))"
      by (rule close_loop_matching_key)
  qed
  have other:
    "\<forall>k r. map_of (timers s) k = Some r \<and> conversation_id (heap s ! r) \<noteq> c \<longrightarrow>
       map_of (timers ?s') k = Some r
       \<and> heap ?s' ! r = heap s ! r
       \<and> get_history ?s' k = get_history s k"
  proof (intro allI impI, elim conjE)
    fix k r
    assume stored: "map_of (timers s) k = Some r" and conv: "conversation_id (heap s ! r) \<noteq> c"
    then have "\<forall>r'. map_of (timers s) k = Some r' \<longrightarrow> conversation_id (heap s ! r') \<noteq> c"
      by simp
    from close_loop_other_key [OF assms this, of now "timers s"] stored
    show "map_of (timers ?s') k = Some r \<and> heap ?s' ! r = heap s ! r
        \<and> get_history ?s' k = get_history s k"
      by simp
  qed
  have absent:
    "\<forall>k. map_of (timers s) k = None \<longrightarrow>
       map_of (timers ?s') k = None \<and> get_history ?s' k = get_history s k"
  proof (intro allI impI)
    fix k
    assume none: "map_of (timers s) k = None"
    then have "\<forall>r'. map_of (timers s) k = Some r' \<longrightarrow> conversation_id (heap s ! r') \<noteq> c"
      by simp
    from close_loop_other_key [OF assms this, of now "timers s"] none
    show "map_of (timers ?s') k = None \<and> get_history ?s' k = get_history s k"
      by simp
  qed
  have eq: "snd (webhooks_conversations Signature_valid ''conversation.admin.closed'' c now s)
      = ?s'"
    by (simp add: webhooks_conversations_def)
  show ?thesis
    unfolding Let_def eq using matching other absent by (intro conjI)
qed

theorem conversation_closed_stops_matching_timers_witness:
  "store_invariant (start ''A'' ''D'' ''u3'' 30 (snd (pause ''B'' ''C'' 25
       (start ''B'' ''C'' ''u2'' 20 (start ''A'' ''C'' ''u1'' 10 initial_server)))))
   \<and> map_of (timers (snd (webhooks_conversations Signature_valid ''conversation.admin.closed''
        ''C'' 100 (start ''A'' ''D'' ''u3'' 30 (snd (pause ''B'' ''C'' 25
          (start ''B'' ''C'' ''u2'' 20 (start ''A'' ''C'' ''u1'' 10 initial_server)))))))) ''A_C''
       = None
   \<and> snd (webhooks_conversations Signature_valid ''conversation.admin.closed''
        ''C'' 100 (start ''A'' ''D'' ''u3'' 30 (snd (pause ''B'' ''C'' 25
          (start ''B'' ''C'' ''u2'' 20 (start ''A'' ''C'' ''u1'' 10 initial_server))))))
       = \<lparr>heap =
            [\<lparr>admin_id = ''A'', conversation_id = ''C'', session_id = ''u1'',
               start_time = 10, total_elapsed = 90, status = Stopped,
               last_update = 10, final_duration = Some 90, end_time = Some 100\<rparr>,
             \<lparr>admin_id = ''B'', conversation_id = ''C'', session_id = ''u2'',
               start_time = 20, total_elapsed = 5, status = Stopped,
               last_update = 25, final_duration = Some 5, end_time = Some 100\<rparr>,
             \<lparr>admin_id = ''A'', conversation_id = ''D'', session_id = ''u3'',
               start_time = 30, total_elapsed = 0, status = Running,
               last_update = 30, final_duration = None, end_time = None\<rparr>,
             \<lparr>admin_id = ''A'', conversation_id = ''C'', session_id = ''u1'',
               start_time = 10, total_elapsed = 90, status = Stopped,
               last_update = 10, final_duration = Some 90, end_time = Some 100\<rparr>,
             \<lparr>admin_id = ''B'', conversation_id = ''C'', session_id = ''u2'',
               start_time = 20, total_elapsed = 5, status = Stopped,
               last_update = 25, final_duration = Some 5, end_time = Some 100\<rparr>],
          timers = [(''A_D'', 2)],
          sessions = [(''u1'', 0), (''u2'', 1), (''u3'', 2)],
          conversationHistory = [(''A_C'', [3]), (''B_C'', [4])]\<rparr>"
  (is "store_invariant ?s \<and> map_of (timers ?s') ''A_C'' = None \<and> ?s' = ?r")
proof -
  have s: "?s =
     \<lparr>heap =
        [\<lparr>admin_id = ''A'', conversation_id = ''C'', session_id = ''u1'',
           start_time = 10, total_elapsed = 0, status = Running,
           last_update = 10, final_duration = None, end_time = None\<rparr>,
         \<lparr>admin_id = ''B'', conversation_id = ''C'', session_id = ''u2'',
           start_time = 20, total_elapsed = 5, status = Paused,
           last_update = 25, final_duration = None, end_time = None\<rparr>,
         \<lparr>admin_id = ''A'', conversation_id = ''D'', session_id = ''u3'',
           start_time = 30, total_elapsed = 0, status = Running,
           last_update = 30, final_duration = None, end_time = None\<rparr>],
      timers = [(''A_C'', 0), (''B_C'', 1), (''A_D'', 2)],
      sessions = [(''u1'', 0), (''u2'', 1), (''u3'', 2)],
      conversationHistory = []\<rparr>"
    by (simp add: start_def pause_def initial_server_def timerKey_def)
  have inv: "store_invariant ?s"
    unfolding s
    by (simp add: store_invariant_def in_store_def live_def key_of_def timerKey_def
        less_Suc_eq all_conj_distrib)
  have stored: "map_of (timers ?s) ''A_C'' = Some 0 \<and> conversation_id (heap ?s ! 0) = ''C''"
    unfolding s by simp
  have result: "?s' = ?r"
    unfolding s
    by (simp add: webhooks_conversations_def stopTimer_def stop_fields_def key_of_def
        timerKey_def get_history_def Let_def)
  have "map_of (timers ?s') ''A_C'' = None"
    by (rule conversation_closed_stops_matching_timers
          [OF inv, of "''C''" 100, unfolded Let_def, THEN conjunct1, rule_format,
           OF stored, THEN conjunct1])
  with inv result show ?thesis by (intro conjI)
qed

subsection \<open>C4: pause and resume without a matching timer\<close>

text \<open>
  Claim C4 says that pause and resume return a NotFound outcome when the key has no
  active timer. The two routes have one answer only, \<^verbatim>\<open>{ success: true }\<close>: a pause
  of a key without a timer answers what the pause of a running timer answers (which
  does change the state), and so does a resume.
\<close>

theorem pause_resume_not_found_counterexample:
  "fst (pause ''a'' ''c'' 5 initial_server) = Success_true
   \<and> fst (resume ''a'' ''c'' 5 initial_server) = Success_true
   \<and> fst (pause ''a'' ''c'' 5 (start ''a'' ''c'' ''u'' 0 initial_server)) = Success_true
   \<and> snd (pause ''a'' ''c'' 5 (start ''a'' ''c'' ''u'' 0 initial_server))
       \<noteq> start ''a'' ''c'' ''u'' 0 initial_server"
  by (simp add: pause_def resume_def start_def initial_server_def timerKey_def)

text \<open>
  Claim C4, amended. For a key without an active timer, pause and resume answer
  \<^verbatim>\<open>{ success: true }\<close> and return the server state as it was: the heap, the active
  store, the sessions and the history. So does resume for a key whose timer is not
  paused.
\<close>

theorem pause_resume_without_timer:
  "(map_of (timers s) (timerKey a c) = None \<longrightarrow>
      pause a c now s = (Success_true, s) \<and> resume a c now s = (Success_true, s))
   \<and> (\<forall>r. map_of (timers s) (timerKey a c) = Some r \<and> status (heap s ! r) \<noteq> Paused \<longrightarrow>
      resume a c now s = (Success_true, s))"
  by (simp add: pause_def resume_def)

theorem pause_resume_without_timer_witness:
  "map_of (timers initial_server) (timerKey ''a'' ''c'') = None
   \<and> pause ''a'' ''c'' 5 initial_server = (Success_true, initial_server)
   \<and> resume ''a'' ''c'' 5 initial_server = (Success_true, initial_server)
   \<and> map_of (timers (start ''a'' ''c'' ''u'' 0 initial_server)) (timerKey ''a'' ''c'') = Some 0
   \<and> status (heap (start ''a'' ''c'' ''u'' 0 initial_server) ! 0) \<noteq> Paused
   \<and> resume ''a'' ''c'' 5 (start ''a'' ''c'' ''u'' 0 initial_server)
       = (Success_true, start ''a'' ''c'' ''u'' 0 initial_server)"
proof -
  have absent: "map_of (timers initial_server) (timerKey ''a'' ''c'') = None"
    by (simp add: initial_server_def)
  have stored: "map_of (timers (start ''a'' ''c'' ''u'' 0 initial_server)) (timerKey ''a'' ''c'')
      = Some 0"
    and running: "status (heap (start ''a'' ''c'' ''u'' 0 initial_server) ! 0) \<noteq> Paused"
    by (simp_all add: start_def initial_server_def timerKey_def)
  from pause_resume_without_timer [of initial_server "''a''" "''c''" 5]
    pause_resume_without_timer [of "start ''a'' ''c'' ''u'' 0 initial_server" "''a''" "''c''" 5]
    absent stored running
  show ?thesis by blast
qed

subsection \<open>C5: stopping a stopped timer\<close>



subsection \<open>C6 and C7: analytics and sessions of duration zero\<close>

text \<open>
  Claim C6 says that the analytics count every history record of the operator that
  has a defined \<open>final_duration\<close>, and that they report no undefined value. The filter
  \<^verbatim>\<open>s => s.final_duration\<close> tests the truthiness of the value, and 0 is not truthy.
  Operator \<open>A\<close> starts a timer at time 1000 and the conversation is closed at time
  1000: the history holds one stopped session whose \<open>final_duration\<close> is defined and
  is 0. The analytics of \<open>A\<close> count no session, and the average is the quotient of 0
  by 0, which is NaN: the median is guarded by the test \<^verbatim>\<open>durations.length > 0\<close>,
  the average is not.
\<close>

theorem analytics_zero_duration_session:
  "(let s = snd (webhooks_conversations Signature_valid ''conversation.admin.closed'' ''C'' 1000
                  (start ''A'' ''C'' ''u'' 1000 initial_server))
    in adminSessions ''A'' s = [1]
     \<and> status (heap s ! 1) = Stopped
     \<and> final_duration (heap s ! 1) = Some 0
     \<and> analytics ''A'' s
         = \<lparr>total_sessions = 0, total_time = 0, average_time = NaN, median_time = 0\<rparr>)"
  by (simp add: Let_def start_def initial_server_def timerKey_def webhooks_conversations_def
      stopTimer_def stop_fields_def key_of_def get_history_def
      adminSessions_def analytics_def durations_def truthy_def js_divide_def)

text \<open>
  Claim C7 says that for a collection of stopped sessions the average is the total
  divided by the number of sessions and the median is the element at index
  \<open>count div 2\<close> of the sorted durations. Operator \<open>A\<close> has three stopped sessions,
  of durations 0, 10000 and 30000. The total is 40000, but the session of duration 0
  is dropped by the filter: the analytics count 2 sessions, the average is 20000
  instead of 40000 / 3, and the median is 30000 instead of 10000.
\<close>

theorem analytics_with_zero_duration_session:
  "(let s1 = snd (webhooks_conversations Signature_valid ''conversation.admin.closed'' ''C1'' 0
               (start ''A'' ''C1'' ''u1'' 0 initial_server));
        s2 = snd (webhooks_conversations Signature_valid ''conversation.admin.closed'' ''C2'' 10000
               (start ''A'' ''C2'' ''u2'' 0 s1));
        s = snd (webhooks_conversations Signature_valid ''conversation.admin.closed'' ''C3'' 50000
               (start ''A'' ''C3'' ''u3'' 20000 s2))
    in map (\<lambda>r. final_duration (heap s ! r)) (adminSessions ''A'' s)
         = [Some 0, Some 10000, Some 30000]
     \<and> analytics ''A'' s
         = \<lparr>total_sessions = 2, total_time = 40000, average_time = Num 20000,
            median_time = 30000\<rparr>)"
  by code_simp

subsection \<open>C8: a second start of a running timer\<close>

text \<open>
  Claim C8. When the key has a running timer, a start on that key returns the server
  state as it was: \<open>total_elapsed\<close>, \<open>session_id\<close>, \<open>start_time\<close> and \<open>last_update\<close>
  of the timer are untouched and no object is allocated. A pause after the second
  start therefore gives the state that a pause without it gives: the interval is
  counted once.
\<close>

theorem start_of_running_timer:
  assumes "map_of (timers s) (timerKey a c) = Some r" and "status (heap s ! r) = Running"
  shows "start a c sid now s = s
       \<and> snd (pause a c t (start a c sid now s)) = snd (pause a c t s)"
  using assms by (simp add: start_def)

theorem start_of_running_timer_witness:
  "map_of (timers (start ''A'' ''C'' ''u1'' 0 initial_server)) (timerKey ''A'' ''C'') = Some 0
   \<and> status (heap (start ''A'' ''C'' ''u1'' 0 initial_server) ! 0) = Running
   \<and> start ''A'' ''C'' ''u2'' 7000 (start ''A'' ''C'' ''u1'' 0 initial_server)
       = start ''A'' ''C'' ''u1'' 0 initial_server
   \<and> total_elapsed (heap (snd (pause ''A'' ''C'' 10000
        (start ''A'' ''C'' ''u2'' 7000 (start ''A'' ''C'' ''u1'' 0 initial_server)))) ! 0) = 10000"
proof -
  have k: "map_of (timers (start ''A'' ''C'' ''u1'' 0 initial_server)) (timerKey ''A'' ''C'')
      = Some 0"
    by (simp add: start_def initial_server_def timerKey_def)
  have r: "status (heap (start ''A'' ''C'' ''u1'' 0 initial_server) ! 0) = Running"
    by (simp add: start_def initial_server_def timerKey_def)
  have p: "total_elapsed (heap (snd (pause ''A'' ''C'' 10000
      (start ''A'' ''C'' ''u1'' 0 initial_server))) ! 0) = 10000"
    by (simp add: start_def pause_def initial_server_def timerKey_def)
  from start_of_running_timer [OF k r, of "''u2''" 7000 10000] k r p
  show ?thesis by simp
qed

subsection \<open>C9: the history record is a copy\<close>

text \<open>
  Claim C9. \<^verbatim>\<open>stopTimer\<close> is applied to a timer of the active store, in a state that
  satisfies the invariant. The last element of the history of the key is then a
  reference other than the one of the timer, to an object with the same fields.
  Writing any timer value whatsoever to the reference of the live timer leaves the
  object of the record as it is, and so does every sequence of commands that runs
  afterwards.
\<close>

theorem stop_snapshot_independent:
  assumes inv: "store_invariant s" and stored: "map_of (timers s) k = Some r"
  shows "(let s' = stopTimer r now s; copy = last (get_history s' k)
          in copy \<noteq> r
           \<and> copy < length (heap s')
           \<and> heap s' ! copy = heap s' ! r
           \<and> (\<forall>t. (heap s')[r := t] ! copy = heap s' ! copy)
           \<and> (\<forall>cmds. heap (run cmds s') ! copy = heap s' ! copy))"
proof -
  note d = store_invariantD [OF inv stored]
  let ?s' = "stopTimer r now s"
  have copy: "last (get_history ?s' k) = length (heap s)"
    using d by (simp add: get_history_stopTimer)
  have inv': "store_invariant ?s'" using inv stored by (rule store_invariant_stopTimer)
  have "heap (run cmds ?s') ! length (heap s) = heap ?s' ! length (heap s)" for cmds
    by (rule run_not_live [OF inv'])
      (simp_all add: stopTimer_length stopTimer_nth_copy live_stop_fields)
  then show ?thesis
    using d by (simp add: Let_def copy stopTimer_heap nth_append)
qed

theorem stop_snapshot_independent_witness:
  "store_invariant (start ''A'' ''C'' ''u'' 0 initial_server)
   \<and> map_of (timers (start ''A'' ''C'' ''u'' 0 initial_server)) ''A_C'' = Some 0
   \<and> last (get_history (stopTimer 0 9 (start ''A'' ''C'' ''u'' 0 initial_server)) ''A_C'') = 1
   \<and> final_duration (heap (stopTimer 0 9 (start ''A'' ''C'' ''u'' 0 initial_server)) ! 1) = Some 9
   \<and> heap (run [Initialize \<lparr>body_context = Some (Context (Some ''conversation'') (Some ''C'')),
                             current_admin_id = Some ''A''\<rparr> ''u2'' 20,
                 Pause ''A'' ''C'' 30,
                 Webhook Signature_valid ''conversation.admin.closed'' ''C'' 40]
            (stopTimer 0 9 (start ''A'' ''C'' ''u'' 0 initial_server))) ! 1
       = heap (stopTimer 0 9 (start ''A'' ''C'' ''u'' 0 initial_server)) ! 1"
  (is "store_invariant ?s \<and> _ \<and> last (get_history ?s' _) = 1 \<and> _ \<and> heap (run ?cmds _) ! 1 = _")
proof -
  have s: "?s =
      \<lparr>heap = [\<lparr>admin_id = ''A'', conversation_id = ''C'', session_id = ''u'',
                 start_time = 0, total_elapsed = 0, status = Running, last_update = 0,
                 final_duration = None, end_time = None\<rparr>],
       timers = [(''A_C'', 0)], sessions = [(''u'', 0)], conversationHistory = []\<rparr>"
    by (simp add: start_def initial_server_def timerKey_def)
  have inv: "store_invariant ?s"
    unfolding s by (simp add: store_invariant_def in_store_def live_def key_of_def timerKey_def)
  have stored: "map_of (timers ?s) ''A_C'' = Some 0"
    unfolding s by simp
  have copy: "last (get_history ?s' ''A_C'') = 1"
    and dur: "final_duration (heap ?s' ! 1) = Some 9"
    unfolding s
    by (simp_all add: stopTimer_def stop_fields_def Let_def key_of_def timerKey_def
        get_history_def)
  note t = stop_snapshot_independent [OF inv stored, of 9, unfolded Let_def copy]
  from t have "\<forall>cmds. heap (run cmds ?s') ! 1 = heap ?s' ! 1"
    by (elim conjE)
  then have "heap (run ?cmds ?s') ! 1 = heap ?s' ! 1" ..
  with inv stored copy dur show ?thesis by (intro conjI)
qed

subsection \<open>C10: keys that collide\<close>

text \<open>
  Claim C10. The key is not injective in the pair of identifiers: operator \<open>a\<close> with
  conversation \<open>b_c\<close> and operator \<open>a_b\<close> with conversation \<open>c\<close> have the same key.
  After a start for the first pair, a start for the second pair creates nothing and a
  pause for the second pair pauses the timer of the first. The history of a session
  that operator \<open>a_b\<close> stopped is selected by the prefix of operator \<open>a\<close>, so the
  analytics of \<open>a\<close> count it.
\<close>

theorem key_collision:
  "timerKey ''a'' ''b_c'' = timerKey ''a_b'' ''c''
   \<and> start ''a_b'' ''c'' ''u2'' 5 (start ''a'' ''b_c'' ''u1'' 0 initial_server)
       = start ''a'' ''b_c'' ''u1'' 0 initial_server
   \<and> admin_id (heap (snd (pause ''a_b'' ''c'' 7
        (start ''a'' ''b_c'' ''u1'' 0 initial_server))) ! 0) = ''a''
   \<and> status (heap (snd (pause ''a_b'' ''c'' 7
        (start ''a'' ''b_c'' ''u1'' 0 initial_server))) ! 0) = Paused
   \<and> (let s = stopTimer 0 9 (start ''a_b'' ''c'' ''u'' 0 initial_server)
      in adminSessions ''a'' s = [1] \<and> admin_id (heap s ! 1) = ''a_b''
       \<and> analytics ''a'' s
           = \<lparr>total_sessions = 1, total_time = 9, average_time = Num 9, median_time = 9\<rparr>)"
  by (simp add: Let_def start_def pause_def initial_server_def timerKey_def
      stopTimer_heap stopTimer_conversationHistory stop_fields_def key_of_def get_history_def
      adminSessions_def analytics_def durations_def truthy_def js_divide_def)

end
